theory Spec2Isabelle
  imports Main "HOL-Library.Sublist"
begin

section \<open>Python values handled by the output-saving helpers\<close>

text \<open>
  The values that \<^verbatim>\<open>save_output_callback\<close> and \<^verbatim>\<open>save_simple_output\<close> inspect with
  \<^verbatim>\<open>isinstance\<close>. Floats and pandas objects are opaque (\<open>'f\<close>, \<open>'p\<close>): what the
  Python runtime and pandas compute on them is taken as a parameter (\<open>ext\<close>).
  A set is given by the list of its elements in iteration order.
\<close>

datatype ('f, 'p) pyval =
    PNone
  | PStr string
  | PInt int
  | PFloat 'f
  | PList "('f, 'p) pyval list"
  | PTuple "('f, 'p) pyval list"
  | PSet "('f, 'p) pyval list"
  | PDict "(('f, 'p) pyval \<times> ('f, 'p) pyval) list"
  | PSeries 'p
  | PDataFrame 'p

datatype py_error = TypeError | ValueError | AttributeError | KeyError

record ('f, 'p) ext =
  str_int :: "int \<Rightarrow> string"  \<comment> \<open>\<^verbatim>\<open>str(n)\<close> of an integer\<close>
  str_round2 :: "'f \<Rightarrow> string"  \<comment> \<open>\<^verbatim>\<open>str(round(x, 2))\<close> of a float\<close>
  py_str :: "('f, 'p) pyval \<Rightarrow> string"  \<comment> \<open>\<^verbatim>\<open>str(item)\<close> of any value\<close>
  to_json :: "'p \<Rightarrow> string"  \<comment> \<open>\<^verbatim>\<open>to_json(orient='records')\<close> of a Series or DataFrame\<close>
  pandas_add :: "'p \<Rightarrow> string \<Rightarrow> py_error + 'p"  \<comment> \<open>\<^verbatim>\<open>x + s\<close> on a Series or DataFrame\<close>

text \<open>
  \<^verbatim>\<open>x + s\<close> for a string \<open>s\<close>: concatenation on a string, pandas' own addition
  on a Series or DataFrame, \<^verbatim>\<open>TypeError\<close> on everything else (numbers, \<^verbatim>\<open>None\<close>,
  lists, tuples, sets and dicts do not add to a string).
\<close>

fun py_add_str :: "('f, 'p) ext \<Rightarrow> ('f, 'p) pyval \<Rightarrow> string \<Rightarrow> py_error + ('f, 'p) pyval" where
  "py_add_str E (PStr t) s = Inr (PStr (t @ s))"
| "py_add_str E (PSeries p) s = map_sum id PSeries (pandas_add E p s)"
| "py_add_str E (PDataFrame p) s = map_sum id PDataFrame (pandas_add E p s)"
| "py_add_str E v s = Inl TypeError"

subsection \<open>\<^verbatim>\<open>save_simple_output\<close>\<close>

text \<open>
  The file \<^verbatim>\<open>filename\<close> is opened in append mode for every write: the state is
  the text appended so far. The last branch calls \<^verbatim>\<open>response.to_dict()\<close>, which none of
  the remaining values has: the \<^verbatim>\<open>AttributeError\<close> is swallowed by the bare
  \<^verbatim>\<open>except\<close> (a warning goes to the user interface) and nothing is written.
  The two closing newlines are written in every case.
\<close>

fun save_simple_output :: "('f, 'p) ext \<Rightarrow> ('f, 'p) pyval \<Rightarrow> string \<Rightarrow> string" where
  "save_simple_output E (PStr s) file = file @ s @ ''\<newline>\<newline>''"
| "save_simple_output E (PFloat x) file = file @ str_round2 E x @ ''\<newline>\<newline>''"
| "save_simple_output E (PInt n) file = file @ str_int E n @ ''\<newline>\<newline>''"
| "save_simple_output E (PSeries p) file = file @ to_json E p @ ''\<newline>\<newline>''"
| "save_simple_output E (PDataFrame p) file = file @ to_json E p @ ''\<newline>\<newline>''"
| "save_simple_output E v file = file @ ''\<newline>\<newline>''"

subsection \<open>\<^verbatim>\<open>save_output_callback\<close>\<close>

text \<open>The three \<^verbatim>\<open>isinstance\<close> checks at the head of the function, in source order.\<close>

fun is_accepted_response :: "('f, 'p) pyval \<Rightarrow> bool" where
  "is_accepted_response (PStr s) = True"
| "is_accepted_response (PList xs) = True"
| "is_accepted_response (PDict kvs) = True"
| "is_accepted_response (PTuple xs) = True"
| "is_accepted_response (PSeries p) = True"
| "is_accepted_response (PDataFrame p) = True"
| "is_accepted_response v = False"

fun is_str :: "('f, 'p) pyval \<Rightarrow> bool" where
  "is_str (PStr s) = True"
| "is_str v = False"

fun is_set :: "('f, 'p) pyval \<Rightarrow> bool" where
  "is_set (PSet xs) = True"
| "is_set v = False"

definition check_inputs ::
  "('f, 'p) pyval \<Rightarrow> ('f, 'p) pyval \<Rightarrow> ('f, 'p) pyval \<Rightarrow> py_error option" where
  "check_inputs response save_path user_request =
     (if \<not> is_accepted_response response then Some TypeError
      else if \<not> is_str save_path then Some TypeError
      else if \<not> (is_str user_request \<or> user_request = PNone) then Some TypeError
      else None)"

text \<open>
  The loops. Each returns the file text and the exception that stopped it, if any:
  what was appended before a \<^verbatim>\<open>raise\<close> stays in the file.
\<close>

fun write_list :: "('f, 'p) ext \<Rightarrow> ('f, 'p) pyval list \<Rightarrow> string \<Rightarrow> string \<times> py_error option" where
  "write_list E [] file = (file, None)"
| "write_list E (elem # rest) file =
     (case py_add_str E elem ''\<newline>'' of
        Inl e \<Rightarrow> (file, Some e)
      | Inr v \<Rightarrow> write_list E rest (save_simple_output E v file))"

text \<open>\<^verbatim>\<open>sep.join(parts)\<close>.\<close>

fun str_join :: "string \<Rightarrow> string list \<Rightarrow> string" where
  "str_join sep [] = []"
| "str_join sep [x] = x"
| "str_join sep (x # y # ys) = x @ sep @ str_join sep (y # ys)"

definition join_items :: "('f, 'p) ext \<Rightarrow> ('f, 'p) pyval list \<Rightarrow> string" where
  "join_items E items = str_join '', '' (map (py_str E) items)"

fun write_value :: "('f, 'p) ext \<Rightarrow> ('f, 'p) pyval \<Rightarrow> string \<Rightarrow> string \<times> py_error option" where
  "write_value E (PStr s) file = (save_simple_output E (PStr (s @ ''\<newline>'')) file, None)"
| "write_value E (PFloat x) file = (file, Some TypeError)"
| "write_value E (PInt n) file = (file, Some TypeError)"
| "write_value E (PList items) file =
     (save_simple_output E (PStr (join_items E items @ ''.'' @ ''\<newline>'')) file, None)"
| "write_value E v file = (save_simple_output E v file, None)"

fun write_dict ::
  "('f, 'p) ext \<Rightarrow> (('f, 'p) pyval \<times> ('f, 'p) pyval) list \<Rightarrow> string \<Rightarrow> string \<times> py_error option" where
  "write_dict E [] file = (file, None)"
| "write_dict E ((key, val) # rest) file =
     (case write_value E val file of
        (file', Some e) \<Rightarrow> (file', Some e)
      | (file', None) \<Rightarrow> write_dict E rest file')"

text \<open>
  The tuple branch: the loop variable is \<^verbatim>\<open>elem\<close>, the body evaluates
  \<^verbatim>\<open>response + '\n'\<close> with the whole tuple \<^verbatim>\<open>response\<close>.
\<close>

fun write_tuple ::
  "('f, 'p) ext \<Rightarrow> ('f, 'p) pyval \<Rightarrow> ('f, 'p) pyval list \<Rightarrow> string \<Rightarrow> string \<times> py_error option" where
  "write_tuple E response [] file = (file, None)"
| "write_tuple E response (elem # rest) file =
     (case py_add_str E response ''\<newline>'' of
        Inl e \<Rightarrow> (file, Some e)
      | Inr v \<Rightarrow> write_tuple E response rest (save_simple_output E v file))"

text \<open>
  The dispatch after the header has been written. The conversion of a set to a list comes
  first, as in the source. The branch on \<^verbatim>\<open>pandas.DataFrame0\<close> is reached by
  \<^verbatim>\<open>None\<close> only (every other value is taken by an earlier branch); evaluating the
  attribute raises \<^verbatim>\<open>AttributeError\<close>.
\<close>

fun set_to_list :: "('f, 'p) pyval \<Rightarrow> ('f, 'p) pyval" where
  "set_to_list (PSet xs) = PList xs"
| "set_to_list v = v"

fun write_response :: "('f, 'p) ext \<Rightarrow> ('f, 'p) pyval \<Rightarrow> string \<Rightarrow> string \<times> py_error option" where
  "write_response E (PStr s) file = (save_simple_output E (PStr s) file, None)"
| "write_response E (PFloat x) file = (save_simple_output E (PFloat x) file, None)"
| "write_response E (PInt n) file = (save_simple_output E (PInt n) file, None)"
| "write_response E (PSeries p) file = (save_simple_output E (PSeries p) file, None)"
| "write_response E (PDataFrame p) file = (save_simple_output E (PDataFrame p) file, None)"
| "write_response E (PList xs) file = write_list E xs file"
| "write_response E (PDict kvs) file = write_dict E kvs file"
| "write_response E (PTuple xs) file = write_tuple E (PTuple xs) xs file"
| "write_response E v file = (file, Some AttributeError)"

fun write_request :: "('f, 'p) pyval \<Rightarrow> string \<Rightarrow> string" where
  "write_request (PStr s) file = file @ s @ ''\<newline>\<newline>''"
| "write_request v file = file"

definition save_output_callback ::
  "('f, 'p) ext \<Rightarrow> ('f, 'p) pyval \<Rightarrow> ('f, 'p) pyval \<Rightarrow> ('f, 'p) pyval \<Rightarrow> string
     \<Rightarrow> string \<times> py_error option" where
  "save_output_callback E response save_path user_request file =
     (case check_inputs response save_path user_request of
        Some e \<Rightarrow> (file, Some e)
      | None \<Rightarrow>
          (case write_response E (set_to_list response)
                  (write_request user_request (file @ ''\<newline>\<newline>'')) of
             (file', Some e) \<Rightarrow> (file', Some e)
           | (file', None) \<Rightarrow> (file' @ ''\<newline>\<newline>'', None)))"

section \<open>Path strings\<close>

text \<open>
  The POSIX versions of the \<^verbatim>\<open>os.path\<close> and \<^verbatim>\<open>pathlib\<close> functions the source calls,
  on strings. \<^verbatim>\<open>s.startswith(t)\<close> is \<^const>\<open>prefix\<close>.
\<close>

text \<open>\<^verbatim>\<open>s.split(c)\<close>: the pieces between the separators, empty pieces included.\<close>

fun split_sep :: "char \<Rightarrow> string \<Rightarrow> string list" where
  "split_sep c [] = [[]]"
| "split_sep c (x # xs) =
     (if x = c then [] # split_sep c xs
      else (case split_sep c xs of [] \<Rightarrow> [[x]] | w # ws \<Rightarrow> (x # w) # ws))"

text \<open>
  \<^verbatim>\<open>os.path.join(a, b)\<close>: an absolute \<open>b\<close> replaces \<open>a\<close>; otherwise the two are
  put together with one separator, unless \<open>a\<close> is empty or already ends in one.
\<close>

definition path_join :: "string \<Rightarrow> string \<Rightarrow> string" where
  "path_join a b =
     (if prefix ''/'' b then b
      else if a = [] \<or> last a = CHR ''/'' then a @ b
      else a @ ''/'' @ b)"

text \<open>
  \<^verbatim>\<open>os.path.normpath\<close>: empty and \<^verbatim>\<open>.\<close> components are dropped, \<^verbatim>\<open>..\<close> removes the
  component before it (or is kept, at the start of a relative path); exactly two leading
  slashes are kept, any other number becomes one.
\<close>

definition initial_slashes :: "string \<Rightarrow> nat" where
  "initial_slashes path =
     (if \<not> prefix ''/'' path then 0
      else if prefix ''//'' path \<and> \<not> prefix ''///'' path then 2
      else 1)"

definition norm_step :: "nat \<Rightarrow> string list \<Rightarrow> string \<Rightarrow> string list" where
  "norm_step slashes new_comps cmp =
     (if cmp = [] \<or> cmp = ''.'' then new_comps
      else if cmp \<noteq> ''..'' \<or> (slashes = 0 \<and> new_comps = [])
                \<or> (new_comps \<noteq> [] \<and> last new_comps = ''..'')
           then new_comps @ [cmp]
      else if new_comps \<noteq> [] then butlast new_comps
      else new_comps)"

definition normpath :: "string \<Rightarrow> string" where
  "normpath path =
     (if path = [] then ''.''
      else let slashes = initial_slashes path;
               comps = foldl (norm_step slashes) [] (split_sep CHR ''/'' path);
               joined = replicate slashes CHR ''/'' @ str_join ''/'' comps
           in if joined = [] then ''.'' else joined)"

text \<open>\<^verbatim>\<open>os.path.abspath\<close>, with the working directory \<open>cwd\<close> of the process.\<close>

definition abspath :: "string \<Rightarrow> string \<Rightarrow> string" where
  "abspath cwd path = normpath (if prefix ''/'' path then path else path_join cwd path)"

text \<open>
  \<^verbatim>\<open>pathlib.PurePosixPath(path).parts\<close>: the root (\<^verbatim>\<open>/\<close>, or \<^verbatim>\<open>//\<close> for exactly
  two leading slashes) if there is one, then the components that are neither empty nor
  \<^verbatim>\<open>.\<close>. A \<^verbatim>\<open>..\<close> component is kept as it is: \<^verbatim>\<open>pathlib\<close> does not resolve it.
\<close>

definition path_root :: "string \<Rightarrow> string" where
  "path_root path = replicate (initial_slashes path) CHR ''/''"

definition path_names :: "string \<Rightarrow> string list" where
  "path_names path = filter (\<lambda>x. x \<noteq> [] \<and> x \<noteq> ''.'') (split_sep CHR ''/'' path)"

definition path_parts :: "string \<Rightarrow> string list" where
  "path_parts path = (if path_root path = [] then [] else [path_root path]) @ path_names path"

text \<open>\<^verbatim>\<open>Path(path).name\<close>: the last component, empty when there is none.\<close>

definition path_name :: "string \<Rightarrow> string" where
  "path_name path = (if path_names path = [] then [] else last (path_names path))"

text \<open>
  \<^verbatim>\<open>Path(path).is_relative_to(Path(other))\<close>: \<open>other\<close> is the path itself or one of
  its parents, compared part by part. The parents of an absolute path end at the root, so
  the empty relative path \<^verbatim>\<open>.\<close> is an ancestor of relative paths only.
\<close>

definition is_relative_to :: "string \<Rightarrow> string \<Rightarrow> bool" where
  "is_relative_to path other =
     (prefix (path_parts other) (path_parts path)
      \<and> (path_parts other = [] \<longrightarrow> path_root path = []))"

section \<open>Session initialisation: the cache root\<close>

text \<open>
  The first block of \<^verbatim>\<open>initialize_session\<close> (the keys \<^verbatim>\<open>SESSION_ID\<close> and
  \<^verbatim>\<open>CACHE_DIR\<close> of the session state). The session state is a dictionary; the module
  constant \<^verbatim>\<open>kit_dir\<close>, the working directory and the value \<^verbatim>\<open>str(uuid4())\<close> would
  return are parameters.
\<close>

type_synonym session_state = "string \<rightharpoonup> string"

definition initialize_session ::
  "string \<Rightarrow> string \<Rightarrow> string \<Rightarrow> bool \<Rightarrow> string option \<Rightarrow> session_state \<Rightarrow> session_state" where
  "initialize_session kit_dir cwd uuid4 prod_mode cache_dir session_state =
     (let s1 = (if ''SESSION_ID'' \<notin> dom session_state
                then session_state(''SESSION_ID'' \<mapsto> uuid4) else session_state)
      in if ''CACHE_DIR'' \<notin> dom s1 then
           (case cache_dir of
              None \<Rightarrow>
                (let s2 = s1(''CACHE_DIR'' \<mapsto> path_join kit_dir ''streamlit/cache'')
                 in if prod_mode then
                      s2(''CACHE_DIR'' \<mapsto>
                           abspath cwd
                             (path_join
                                (path_join kit_dir ''../../scratch/financial_assistant/cache'')
                                (''cache_'' @ the (s1 ''SESSION_ID''))))
                    else s2)
            | Some d \<Rightarrow> s1(''CACHE_DIR'' \<mapsto> d))
         else s1)"

section \<open>Browsing the cache: \<^verbatim>\<open>display_directory_contents\<close>\<close>

text \<open>
  The function draws widgets and reads the file system. What it sees of the world is a
  parameter: the result of \<^verbatim>\<open>list_directory\<close> and of \<^verbatim>\<open>list_files_in_directory\<close>
  for each path string (\<open>None\<close> when \<^verbatim>\<open>os.listdir\<close> raises, which nothing here
  catches), and which sidebar buttons report a click, by sub-directory name and index.
  What it does is recorded as a trace: each directory it lists and each file name it hands
  to \<^verbatim>\<open>download_file\<close>. The only state it writes is
  \<^verbatim>\<open>streamlit.session_state.current_path\<close>.
\<close>

record ui_env =
  list_directory :: "string \<Rightarrow> (string list \<times> string list) option"
  list_files_in_directory :: "string \<Rightarrow> string list option"
  button :: "string \<Rightarrow> nat \<Rightarrow> bool"

datatype event = Listed string | Download string

datatype outcome = Returned | Raised | Out_of_fuel

text \<open>
  The recursion follows the buttons and need not end (the recursive call is made on
  \<^verbatim>\<open>current_path/subdir\<close>, which can be the directory being shown): the model takes
  fuel, and a run that uses it up ends with \<^const>\<open>Out_of_fuel\<close> and the trace so far.
  \<open>display_subdirectories\<close> is the loop over \<^verbatim>\<open>enumerate(subdirectories)\<close>.
\<close>

function display_directory_contents ::
    "nat \<Rightarrow> ui_env \<Rightarrow> string \<Rightarrow> string \<Rightarrow> string \<Rightarrow> event list \<times> string \<times> outcome"
  and display_subdirectories ::
    "nat \<Rightarrow> ui_env \<Rightarrow> string \<Rightarrow> string \<Rightarrow> (nat \<times> string) list \<Rightarrow> string
       \<Rightarrow> event list \<times> string \<times> outcome"
where
  "display_directory_contents 0 env path default_path current_path =
     ([], current_path, Out_of_fuel)"
| "display_directory_contents (Suc n) env path default_path current_path =
     (let contained = is_relative_to path default_path;
          path' = (if contained then path else default_path);
          current_path' = (if contained then current_path else default_path)
      in case list_directory env path' of
           None \<Rightarrow> ([Listed path'], current_path', Raised)
         | Some (subdirectories, files) \<Rightarrow>
             (case display_subdirectories n env path' default_path
                     (enumerate 0 subdirectories) current_path' of
                (evs, current_path'', Returned) \<Rightarrow>
                  (Listed path' # evs
                     @ (if files \<noteq> [] \<and> prefix ''cache'' (path_name path')
                        then map (\<lambda>file. Download (path_join path' file)) files else []),
                   current_path'', Returned)
              | (evs, current_path'', out) \<Rightarrow> (Listed path' # evs, current_path'', out)))"
| "display_subdirectories n env path default_path [] current_path =
     ([], current_path, Returned)"
| "display_subdirectories n env path default_path ((idx, subdir) # rest) current_path =
     (if button env subdir idx then
        (case list_files_in_directory env (path_join path subdir) of
           None \<Rightarrow> ([Listed (path_join path subdir)], current_path, Raised)
         | Some files_subdir \<Rightarrow>
             (let downloads =
                    map (\<lambda>file. Download (path_join (path_join current_path subdir) file))
                      files_subdir
              in case display_directory_contents n env (path_join current_path subdir)
                        default_path current_path of
                   (evs, current_path', Returned) \<Rightarrow>
                     (case display_subdirectories n env path default_path rest current_path' of
                        (evs', current_path'', out) \<Rightarrow>
                          (Listed (path_join path subdir) # downloads @ evs @ evs',
                           current_path'', out))
                 | (evs, current_path', out) \<Rightarrow>
                     (Listed (path_join path subdir) # downloads @ evs, current_path', out)))
      else display_subdirectories n env path default_path rest current_path)"
  by pat_completeness auto
termination
  by (relation "inv_image (less_than <*lex*> less_than <*lex*> less_than)
        (\<lambda>x. case x of
           Inl (n, env, path, default_path, current_path) \<Rightarrow> (n, 0, 0)
         | Inr (n, env, path, default_path, subdirs, current_path) \<Rightarrow> (n, 1, length subdirs))")
     auto

text \<open>
  The names \<^verbatim>\<open>os.listdir\<close> returns are single components: they contain no separator.
\<close>

definition plain_names :: "ui_env \<Rightarrow> bool" where
  "plain_names env =
     (\<forall>p. (\<forall>subs files. list_directory env p = Some (subs, files)
              \<longrightarrow> (\<forall>n \<in> set subs \<union> set files. CHR ''/'' \<notin> set n))
        \<and> (\<forall>files. list_files_in_directory env p = Some files
              \<longrightarrow> (\<forall>n \<in> set files. CHR ''/'' \<notin> set n)))"

section \<open>The file system\<close>

text \<open>
  A directory tree of regular files and directories; a directory keeps its entries in the
  order \<^verbatim>\<open>os.listdir\<close> and \<^verbatim>\<open>os.scandir\<close> report them. What makes an operation fail is
  part of the state: a \<^emph>\<open>locked\<close> file cannot be unlinked, a \<^emph>\<open>sealed\<close> directory cannot
  be listed. Links and special files are not modelled.
\<close>

datatype node =
    File (locked: bool)
  | Dir (sealed: bool) (entries: "(string \<times> node) list")

datatype os_error =
    FileNotFoundError | NotADirectoryError | IsADirectoryError | PermissionError | OSError

datatype level = INFO | WARNING

type_synonym log_record = "level \<times> string \<times> string"  \<comment> \<open>level, message, the path in it\<close>

text \<open>
  The state of the world: the tree, the working directory of the process (the names from
  the root down to it) and the records logged so far.
\<close>

record world =
  fs :: node
  working_dir :: "string list"
  log :: "log_record list"

text \<open>The node at a list of names, from a node downwards.\<close>

fun fs_lookup :: "node \<Rightarrow> string list \<Rightarrow> node option" where
  "fs_lookup x [] = Some x"
| "fs_lookup x (n # ns) =
     (case x of
        File l \<Rightarrow> None
      | Dir s es \<Rightarrow> (case map_of es n of None \<Rightarrow> None | Some y \<Rightarrow> fs_lookup y ns))"

text \<open>
  A path string is resolved the way the operating system does it, one component after the
  other, from the root of the tree when the string starts with a separator and from the
  working directory otherwise. The node reached so far must be a directory; an empty
  component and \<^verbatim>\<open>.\<close> stay in it, \<^verbatim>\<open>..\<close> goes to its parent (the root is its own
  parent), and a name goes to the entry of that name, if there is one. The result is the
  list of names from the root to the node the string names. The empty string names
  nothing.
\<close>

fun resolve :: "node \<Rightarrow> string list \<Rightarrow> string list \<Rightarrow> string list option" where
  "resolve root cur [] = Some cur"
| "resolve root cur (c # cs) =
     (case fs_lookup root cur of
        Some (Dir s es) \<Rightarrow>
          if c = [] \<or> c = ''.'' then resolve root cur cs
          else if c = ''..'' then resolve root (butlast cur) cs
          else (case map_of es c of
                  None \<Rightarrow> None
                | Some y \<Rightarrow> resolve root (cur @ [c]) cs)
      | _ \<Rightarrow> None)"

definition resolve_path :: "world \<Rightarrow> string \<Rightarrow> string list option" where
  "resolve_path w path =
     (if path = [] then None
      else resolve (fs w) (if prefix ''/'' path then [] else working_dir w) (split_sep CHR ''/'' path))"

definition fs_exists :: "world \<Rightarrow> string \<Rightarrow> bool" where
  "fs_exists w path = (resolve_path w path \<noteq> None)"

text \<open>Replacing and removing the node at a list of names that exists.\<close>

fun fs_put :: "node \<Rightarrow> string list \<Rightarrow> node \<Rightarrow> node" where
  "fs_put x [] y = y"
| "fs_put x (n # ns) y =
     (case x of
        File l \<Rightarrow> File l
      | Dir s es \<Rightarrow> Dir s (map (\<lambda>(k, z). if k = n then (k, fs_put z ns y) else (k, z)) es))"

fun fs_remove :: "node \<Rightarrow> string list \<Rightarrow> node" where
  "fs_remove x [] = x"
| "fs_remove x [n] =
     (case x of
        File l \<Rightarrow> File l
      | Dir s es \<Rightarrow> Dir s (filter (\<lambda>(k, z). k \<noteq> n) es))"
| "fs_remove x (n # ns) =
     (case x of
        File l \<Rightarrow> File l
      | Dir s es \<Rightarrow> Dir s (map (\<lambda>(k, z). if k = n then (k, fs_remove z ns) else (k, z)) es))"

subsection \<open>The library calls, on a node\<close>


fun os_unlink :: "node \<Rightarrow> os_error option" where
  "os_unlink (File l) = (if l then Some PermissionError else None)"
| "os_unlink (Dir s es) = Some IsADirectoryError"

text \<open>
  \<^verbatim>\<open>shutil.rmtree\<close> with its default error handler: the entries are removed in order,
  directories recursively, and the first failure is raised at once, so that what was not
  reached yet stays. The result is \<open>None\<close> when the call returns (the tree is gone, the
  directory itself removed by the final \<^verbatim>\<open>os.rmdir\<close>), or the exception raised and what
  is left of the node. On a regular file \<^verbatim>\<open>rmtree\<close> raises.
\<close>

fun rmtree_node :: "node \<Rightarrow> (os_error \<times> node) option"
  and rmtree_entries :: "(string \<times> node) list \<Rightarrow> (os_error \<times> (string \<times> node) list) option"
where
  "rmtree_node (File l) = Some (NotADirectoryError, File l)"
| "rmtree_node (Dir s es) =
     (if s then Some (PermissionError, Dir s es)
      else (case rmtree_entries es of
              Some (e, es') \<Rightarrow> Some (e, Dir s es')
            | None \<Rightarrow> None))"
| "rmtree_entries [] = None"
| "rmtree_entries ((n, File l) # es) =
     (case os_unlink (File l) of
        Some e \<Rightarrow> Some (e, (n, File l) # es)
      | None \<Rightarrow> rmtree_entries es)"
| "rmtree_entries ((n, Dir s xs) # es) =
     (case rmtree_node (Dir s xs) of
        Some (e, x') \<Rightarrow> Some (e, (n, x') # es)
      | None \<Rightarrow> rmtree_entries es)"

text \<open>
  \<^verbatim>\<open>shutil.rmtree(path)\<close> on the world: the exception, if any, and the tree afterwards.
  The final \<^verbatim>\<open>os.rmdir(path)\<close> is refused by the operating system, after the directory
  was emptied, for the root of the tree and for a path whose last component is \<^verbatim>\<open>.\<close> or
  \<^verbatim>\<open>..\<close>.
\<close>

definition final_component :: "string \<Rightarrow> string" where
  "final_component path =
     (case rev (filter (\<lambda>c. c \<noteq> []) (split_sep CHR ''/'' path)) of
        [] \<Rightarrow> []
      | c # cs \<Rightarrow> c)"

definition rmtree :: "string \<Rightarrow> world \<Rightarrow> os_error option \<times> node" where
  "rmtree path w =
     (case resolve_path w path of
        None \<Rightarrow> (Some FileNotFoundError, fs w)
      | Some p \<Rightarrow>
          (case rmtree_node (the (fs_lookup (fs w) p)) of
             Some (e, x') \<Rightarrow> (Some e, fs_put (fs w) p x')
           | None \<Rightarrow>
               if p = [] \<or> final_component path = ''.'' \<or> final_component path = ''..''
               then (Some OSError, fs_put (fs w) p (Dir False []))
               else (None, fs_remove (fs w) p)))"

subsection \<open>\<^verbatim>\<open>clear_directory\<close>\<close>



subsection \<open>\<^verbatim>\<open>clear_cache\<close>\<close>


subsection \<open>Predicates on trees\<close>





subsection \<open>\<^verbatim>\<open>delete_temp_dir\<close>\<close>

definition delete_temp_dir :: "string \<Rightarrow> bool \<Rightarrow> world \<Rightarrow> world" where
  "delete_temp_dir temp_dir verbose w =
     (if fs_exists w temp_dir then
        (case rmtree temp_dir w of
           (None, root') \<Rightarrow>
             w\<lparr>fs := root',
               log := log w @ (if verbose then [(INFO, ''Temporary directory deleted'', temp_dir)]
                               else [])\<rparr>
         | (Some e, root') \<Rightarrow>
             w\<lparr>fs := root',
               log := log w
                 @ (if verbose
                    then [(WARNING, ''Could not delete temporary directory'', temp_dir)]
                    else [])\<rparr>)
      else w)"

subsection \<open>\<^verbatim>\<open>delete_all_subdirectories\<close>\<close>

text \<open>
  \<open>delete_dirs\<close> is the inner loop over the \<^verbatim>\<open>dirs\<close> that \<^verbatim>\<open>os.walk\<close> reports for one
  directory \<^verbatim>\<open>root\<close>: a sub-directory whose joined path is not an element of
  \<^verbatim>\<open>exclude\<close> is handed to \<^verbatim>\<open>shutil.rmtree\<close>, and whatever that raises is swallowed.
  Regular files are not in \<^verbatim>\<open>dirs\<close>.
\<close>

fun delete_dirs ::
  "string list \<Rightarrow> bool \<Rightarrow> string \<Rightarrow> (string \<times> node) list
     \<Rightarrow> (string \<times> node) list \<times> log_record list" where
  "delete_dirs exclude verbose root [] = ([], [])"
| "delete_dirs exclude verbose root ((dir_name, File l) # rest) =
     (case delete_dirs exclude verbose root rest of
        (rest', lg) \<Rightarrow> ((dir_name, File l) # rest', lg))"
| "delete_dirs exclude verbose root ((dir_name, Dir s es) # rest) =
     (case delete_dirs exclude verbose root rest of
        (rest', lg) \<Rightarrow>
          if path_join root dir_name \<notin> set exclude then
            (case rmtree_node (Dir s es) of
               None \<Rightarrow>
                 (rest',
                  (if verbose
                   then [(INFO, ''Successfully deleted directory'',
                          path_name (path_join root dir_name))]
                   else []) @ lg)
             | Some (e, x') \<Rightarrow>
                 ((dir_name, x') # rest',
                  (if verbose
                   then [(WARNING, ''Could not delete directory'',
                          path_name (path_join root dir_name))]
                   else []) @ lg))
          else ((dir_name, Dir s es) # rest', lg))"

text \<open>What is left after a failed \<^verbatim>\<open>rmtree\<close> is never larger than what was there.\<close>

fun node_size :: "node \<Rightarrow> nat" where
  "node_size (File l) = 1"
| "node_size (Dir s es) = Suc (sum_list (map (\<lambda>(n, x). node_size x) es))"

lemma rmtree_node_size:
  "rmtree_node x = Some (e, x') \<Longrightarrow> node_size x' \<le> node_size x"
  "rmtree_entries es = Some (e, es') \<Longrightarrow>
     sum_list (map (\<lambda>(n, x). node_size x) es') \<le> sum_list (map (\<lambda>(n, x). node_size x) es)"
proof (induction x and es arbitrary: e x' and e es' rule: rmtree_node_rmtree_entries.induct)
  case (1 l)
  then show ?case by auto
next
  case (2 s es)
  then show ?case by (auto split: if_splits prod.splits option.splits)
next
  case 3
  then show ?case by auto
next
  case (4 n l es)
  then show ?case by (auto split: if_splits)
next
  case (5 n s xs es)
  show ?case
  proof (cases "rmtree_node (Dir s xs)")
    case None
    have "sum_list (map (\<lambda>(n, x). node_size x) es') \<le> sum_list (map (\<lambda>(n, x). node_size x) es)"
      using 5(2) [OF None] 5(3) None by simp
    then show ?thesis by simp
  next
    case (Some a)
    obtain e1 x1 where a: "a = (e1, x1)" by (cases a)
    have "node_size x1 \<le> node_size (Dir s xs)"
      using 5(1) Some a by simp
    then show ?thesis using 5(3) Some a by auto
  qed
qed

lemma delete_dirs_size:
  "sum_list (map (\<lambda>(n, x). node_size x) (fst (delete_dirs exclude verbose root es)))
     \<le> sum_list (map (\<lambda>(n, x). node_size x) es)"
proof (induction es)
  case Nil
  then show ?case by simp
next
  case (Cons a es)
  obtain name x where a: "a = (name, x)" by (cases a)
  obtain rest' lg where d: "delete_dirs exclude verbose root es = (rest', lg)"
    by (cases "delete_dirs exclude verbose root es")
  have IH: "sum_list (map (\<lambda>(n, x). node_size x) rest')
              \<le> sum_list (map (\<lambda>(n, x). node_size x) es)"
    using Cons d by simp
  show ?case
  proof (cases x)
    case (File l)
    then show ?thesis using IH a d by simp
  next
    case (Dir s xs)
    show ?thesis
    proof (cases "rmtree_node (Dir s xs)")
      case None
      then show ?thesis using IH a d Dir
        by (simp del: node_size.simps rmtree_node.simps)
    next
      case (Some r)
      obtain e x' where r: "r = (e, x')" by (cases r)
      have "node_size x' \<le> node_size (Dir s xs)"
        using rmtree_node_size(1) Some r by blast
      then show ?thesis using IH a d Dir Some r
        by (simp del: node_size.simps rmtree_node.simps)
    qed
  qed
qed

text \<open>
  \<^verbatim>\<open>os.walk\<close>, top down: a directory that cannot be scanned is skipped without an error;
  otherwise the loop body runs on the directory first, and the walk then descends into
  each of the sub-directories that were reported, of which the removed ones can no longer
  be scanned.
\<close>

function walk_node :: "string list \<Rightarrow> bool \<Rightarrow> string \<Rightarrow> node \<Rightarrow> node \<times> log_record list"
  and walk_dirs ::
    "string list \<Rightarrow> bool \<Rightarrow> string \<Rightarrow> (string \<times> node) list
       \<Rightarrow> (string \<times> node) list \<times> log_record list"
where
  "walk_node exclude verbose top_dir (File l) = (File l, [])"
| "walk_node exclude verbose top_dir (Dir s es) =
     (if s then (Dir s es, [])
      else (case delete_dirs exclude verbose top_dir es of
              (es1, lg1) \<Rightarrow>
                (case walk_dirs exclude verbose top_dir es1 of
                   (es2, lg2) \<Rightarrow> (Dir s es2, lg1 @ lg2))))"
| "walk_dirs exclude verbose top_dir [] = ([], [])"
| "walk_dirs exclude verbose top_dir ((dirname, File l) # rest) =
     (case walk_dirs exclude verbose top_dir rest of
        (rest', lg) \<Rightarrow> ((dirname, File l) # rest', lg))"
| "walk_dirs exclude verbose top_dir ((dirname, Dir s es) # rest) =
     (case walk_node exclude verbose (path_join top_dir dirname) (Dir s es) of
        (x', lg1) \<Rightarrow>
          (case walk_dirs exclude verbose top_dir rest of
             (rest', lg2) \<Rightarrow> ((dirname, x') # rest', lg1 @ lg2)))"
  by pat_completeness auto
termination
  apply (relation "measure (\<lambda>a. case a of
          Inl (exclude, verbose, top_dir, x) \<Rightarrow> 2 * node_size x
        | Inr (exclude, verbose, top_dir, es) \<Rightarrow>
            Suc (2 * sum_list (map (\<lambda>(n, x). node_size x) es)))")
      apply simp_all
  subgoal for exclude verbose top_dir s es x y
    using delete_dirs_size [of exclude verbose top_dir es]
    by (cases "delete_dirs exclude verbose top_dir es") simp
  done

definition delete_all_subdirectories :: "string \<Rightarrow> string list \<Rightarrow> bool \<Rightarrow> world \<Rightarrow> world" where
  "delete_all_subdirectories directory exclude verbose w =
     (case resolve_path w directory of
        None \<Rightarrow> w
      | Some p \<Rightarrow>
          (case walk_node exclude verbose directory (the (fs_lookup (fs w) p)) of
             (x', lg) \<Rightarrow> w\<lparr>fs := fs_put (fs w) p x', log := log w @ lg\<rparr>))"

section \<open>Scheduled deletion\<close>

text \<open>
  \<^verbatim>\<open>schedule_temp_dir_deletion\<close> registers a job with the process-wide scheduler of the
  \<^verbatim>\<open>schedule\<close> package and starts a thread that polls it. The package is modelled by
  the rules of its release 1.2.2: \<^verbatim>\<open>every(n).minutes.do(f, ...)\<close> computes the next run of
  the job, \<open>n\<close> minutes from now, and appends the job; \<^verbatim>\<open>tag\<close> adds a tag to it;
  \<^verbatim>\<open>get_jobs(tag)\<close> selects the jobs that carry the tag; \<^verbatim>\<open>run_pending\<close> runs every
  job that is due, in the order of their next run; a job that has run is scheduled again
  one period later, and is removed only if the job function returned \<^verbatim>\<open>CancelJob\<close>.
  The computation of the next run does not complete for every period: with a period that
  is not positive its search for a time after now does not return normally, and with a
  time beyond the range of \<^verbatim>\<open>datetime\<close> it raises \<^verbatim>\<open>OverflowError\<close>. Time is counted
  in seconds; \<open>time_limit\<close> is the last second \<^verbatim>\<open>datetime\<close> can represent. The list
  \<open>fired\<close> records each run of a job function (time and directory); it is not part of
  the program.
\<close>

record job =
  job_id :: nat
  interval :: int
  next_run :: int
  tags :: "string list"
  temp_dir_arg :: string

datatype job_return = ReturnsNone | CancelJob

record system =
  world_of :: world
  jobs :: "job list"
  next_job_id :: nat
  clock :: int
  time_limit :: int
  fired :: "(int \<times> string) list"

text \<open>The next run of a job with the given interval in minutes, if its computation completes.\<close>

definition schedule_next_run :: "system \<Rightarrow> int \<Rightarrow> int option" where
  "schedule_next_run sys minutes =
     (if 1 \<le> minutes \<and> clock sys + 60 * minutes \<le> time_limit sys
      then Some (clock sys + 60 * minutes) else None)"

text \<open>
  The job function is \<^verbatim>\<open>delete_temp_dir\<close> with the arguments bound at registration
  (\<^verbatim>\<open>verbose=False\<close>). It has no \<^verbatim>\<open>return\<close> statement: it returns \<^verbatim>\<open>None\<close>.
\<close>

definition job_func :: "job \<Rightarrow> world \<Rightarrow> world \<times> job_return" where
  "job_func j w = (delete_temp_dir (temp_dir_arg j) False w, ReturnsNone)"

definition get_jobs :: "string \<Rightarrow> system \<Rightarrow> job list" where
  "get_jobs tag sys = filter (\<lambda>j. tag \<in> set (tags j)) (jobs sys)"

text \<open>
  Running one job: the job function is called, then the next run is computed, then the
  return value is looked at. The flag says whether the call completed; when the next run
  cannot be computed the job function has run all the same and the job list is as it was.
\<close>

definition run_job :: "job \<Rightarrow> system \<Rightarrow> system \<times> bool" where
  "run_job j sys =
     (case job_func j (world_of sys) of
        (w', ret) \<Rightarrow>
          (case schedule_next_run sys (interval j) of
             None \<Rightarrow>
               (sys\<lparr>world_of := w', fired := fired sys @ [(clock sys, temp_dir_arg j)]\<rparr>, False)
           | Some t \<Rightarrow>
               (sys\<lparr>world_of := w',
                    fired := fired sys @ [(clock sys, temp_dir_arg j)],
                    jobs :=
                      (if ret = CancelJob
                       then filter (\<lambda>k. job_id k \<noteq> job_id j) (jobs sys)
                       else map (\<lambda>k. if job_id k = job_id j then k\<lparr>next_run := t\<rparr> else k)
                              (jobs sys))\<rparr>,
                True)))"

fun run_jobs :: "job list \<Rightarrow> system \<Rightarrow> system \<times> bool" where
  "run_jobs [] sys = (sys, True)"
| "run_jobs (j # js) sys =
     (case run_job j sys of
        (sys', True) \<Rightarrow> run_jobs js sys'
      | (sys', False) \<Rightarrow> (sys', False))"

definition run_pending :: "system \<Rightarrow> system \<times> bool" where
  "run_pending sys =
     run_jobs (sort_key next_run (filter (\<lambda>j. next_run j \<le> clock sys) (jobs sys))) sys"

definition sleep :: "int \<Rightarrow> system \<Rightarrow> system" where
  "sleep seconds sys = sys\<lparr>clock := clock sys + seconds\<rparr>"

text \<open>
  \<^verbatim>\<open>run_scheduler\<close>, the body of the thread: while a job with the tag is registered, run
  what is pending and sleep for a second. The loop need not end; the model runs at most
  \<open>n\<close> iterations and reports the state reached and where the thread is: still in the
  loop, out of it because no job carries the tag any more, or stopped inside
  \<^verbatim>\<open>run_pending\<close> by a call that did not complete.
\<close>

datatype thread_state = Polling | Left_loop | Stopped

fun run_scheduler :: "nat \<Rightarrow> string \<Rightarrow> system \<Rightarrow> system \<times> thread_state" where
  "run_scheduler 0 temp_dir sys =
     (sys, if get_jobs temp_dir sys = [] then Left_loop else Polling)"
| "run_scheduler (Suc n) temp_dir sys =
     (if get_jobs temp_dir sys \<noteq> [] then
        (case run_pending sys of
           (sys', True) \<Rightarrow> run_scheduler n temp_dir (sleep 1 sys')
         | (sys', False) \<Rightarrow> (sys', Stopped))
      else (sys, Left_loop))"

text \<open>
  The registration. When \<^verbatim>\<open>do\<close> does not complete, nothing is registered and the
  thread is not started. When it does, the job is appended whatever is registered already,
  and the thread that is started runs \<^const>\<open>run_scheduler\<close> on the tag \<^verbatim>\<open>temp_dir\<close>.
\<close>

datatype registration = Registered system | Not_registered

definition schedule_temp_dir_deletion :: "string \<Rightarrow> int \<Rightarrow> system \<Rightarrow> registration" where
  "schedule_temp_dir_deletion temp_dir delay_minutes sys =
     (case schedule_next_run sys delay_minutes of
        None \<Rightarrow> Not_registered
      | Some t \<Rightarrow>
          Registered
            (sys\<lparr>jobs := jobs sys
                    @ [\<lparr>job_id = next_job_id sys, interval = delay_minutes, next_run = t,
                        tags = [temp_dir], temp_dir_arg = temp_dir\<rparr>],
                 next_job_id := Suc (next_job_id sys)\<rparr>))"

section \<open>Properties of the path functions and of the cache root\<close>

lemma split_sep_nonempty: "split_sep c xs \<noteq> []"
  by (induction xs) (auto split: list.splits)

lemma split_sep_no_sep: "c \<notin> set w \<Longrightarrow> split_sep c w = [w]"
  by (induction w) auto

lemma split_sep_append:
  "c \<notin> set w \<Longrightarrow> split_sep c (xs @ c # w) = split_sep c xs @ [w]"
proof (induction xs)
  case Nil
  then show ?case by (simp add: split_sep_no_sep)
next
  case (Cons x xs)
  then show ?case
    using split_sep_nonempty [of c xs] by (cases "split_sep c xs") auto
qed

lemma str_join_snoc:
  "str_join sep (A @ [x]) = (if A = [] then x else str_join sep A @ sep @ x)"
  by (induction sep A rule: str_join.induct) auto

lemma initial_slashes_append:
  "3 \<le> length P \<Longrightarrow> initial_slashes (P @ r) = initial_slashes P"
proof -
  assume "3 \<le> length P"
  then obtain a b c P' where P: "P = a # b # c # P'"
    by (cases P; cases "tl P"; cases "tl (tl P)") auto
  show ?thesis by (simp add: P initial_slashes_def)
qed

lemma normpath_snoc:
  assumes "3 \<le> length P" "CHR ''/'' \<notin> set c" "c \<noteq> []" "c \<noteq> ''.''" "c \<noteq> ''..''"
  shows "normpath (P @ ''/'' @ c) =
     replicate (initial_slashes P) CHR ''/''
     @ (if foldl (norm_step (initial_slashes P)) [] (split_sep CHR ''/'' P) = [] then []
        else str_join ''/'' (foldl (norm_step (initial_slashes P)) [] (split_sep CHR ''/'' P)) @ ''/'')
     @ c"
proof -
  have s: "split_sep CHR ''/'' (P @ CHR ''/'' # c) = split_sep CHR ''/'' P @ [c]"
    using assms(2) by (rule split_sep_append)
  have i: "initial_slashes (P @ CHR ''/'' # c) = initial_slashes P"
    using assms(1) by (rule initial_slashes_append)
  have n: "norm_step k A c = A @ [c]" for k A
    using assms by (simp add: norm_step_def)
  show ?thesis
    using assms(3) by (simp add: normpath_def s i n str_join_snoc Let_def)
qed

lemma path_join_suffix: "\<exists>Y. path_join a b = Y @ b"
  by (auto simp: path_join_def intro: exI [of _ "[]"])

lemma prod_root_shape:
  "\<exists>Q. \<forall>sid. CHR ''/'' \<notin> set sid \<longrightarrow>
     abspath cwd (path_join (path_join kit_dir ''../../scratch/financial_assistant/cache'')
                    (''cache_'' @ sid)) = Q @ ''cache_'' @ sid"
proof -
  define K where "K = ''../../scratch/financial_assistant/cache''"
  obtain Y where X: "path_join kit_dir K = Y @ K"
    using path_join_suffix by blast
  define X where "X = Y @ K"
  have Xne: "X \<noteq> []" and Xlast: "last X \<noteq> CHR ''/''"
    by (simp_all add: X_def K_def)
  have j1: "path_join X (''cache_'' @ sid) = X @ ''/'' @ ''cache_'' @ sid" for sid
    using Xne Xlast by (simp add: path_join_def)
  obtain P where P: "\<And>sid. (if prefix ''/'' (X @ ''/'' @ ''cache_'' @ sid)
                             then X @ ''/'' @ ''cache_'' @ sid
                             else path_join cwd (X @ ''/'' @ ''cache_'' @ sid))
                           = P @ ''/'' @ ''cache_'' @ sid"
    and Plen: "3 \<le> length P"
  proof (cases "prefix ''/'' X")
    case True
    then have "prefix ''/'' (X @ r)" for r by simp
    moreover have "3 \<le> length X" by (simp add: X_def K_def)
    ultimately show ?thesis using that [of X] by simp
  next
    case False
    then have np: "\<not> prefix ''/'' (X @ r)" for r
      using Xne by (cases X) auto
    show ?thesis
    proof (cases "cwd = [] \<or> last cwd = CHR ''/''")
      case True
      have "3 \<le> length (cwd @ X)" by (simp add: X_def K_def)
      then show ?thesis using that [of "cwd @ X"] np True by (simp add: path_join_def)
    next
      case False
      have "3 \<le> length (cwd @ ''/'' @ X)" by (simp add: X_def K_def)
      then show ?thesis using that [of "cwd @ ''/'' @ X"] np False
        by (simp add: path_join_def)
    qed
  qed
  define Q where "Q = replicate (initial_slashes P) CHR ''/''
     @ (if foldl (norm_step (initial_slashes P)) [] (split_sep CHR ''/'' P) = [] then []
        else str_join ''/'' (foldl (norm_step (initial_slashes P)) [] (split_sep CHR ''/'' P)) @ ''/'')"
  have "abspath cwd (path_join (path_join kit_dir K) (''cache_'' @ sid)) = Q @ ''cache_'' @ sid"
    if "CHR ''/'' \<notin> set sid" for sid
  proof -
    have c: "CHR ''/'' \<notin> set (''cache_'' @ sid)" using that by simp
    have "abspath cwd (path_join (path_join kit_dir K) (''cache_'' @ sid))
            = normpath (P @ ''/'' @ ''cache_'' @ sid)"
      unfolding abspath_def X X_def [symmetric] j1 P ..
    also have "\<dots> = Q @ ''cache_'' @ sid"
      unfolding Q_def using normpath_snoc [OF Plen c] by simp
    finally show ?thesis .
  qed
  then show ?thesis unfolding K_def by blast
qed

lemma prefix_same_length: "prefix a b \<Longrightarrow> length a = length b \<Longrightarrow> a = b"
  by (auto simp: prefix_def)

text \<open>
  C7 as stated fails: outside production mode the cache root does not depend on the
  session identifier. Two fresh sessions with the identifiers \<^verbatim>\<open>s1\<close> and \<^verbatim>\<open>s2\<close>
  get the same root \<^verbatim>\<open>kit_dir/streamlit/cache\<close>.
\<close>

theorem initialize_session_shared_root_counterexample:
  "initialize_session ''/repo/financial_assistant'' ''/repo'' ''s1'' False None Map.empty ''SESSION_ID''
     = Some ''s1''
   \<and> initialize_session ''/repo/financial_assistant'' ''/repo'' ''s2'' False None Map.empty ''SESSION_ID''
     = Some ''s2''
   \<and> initialize_session ''/repo/financial_assistant'' ''/repo'' ''s1'' False None Map.empty ''CACHE_DIR''
     = Some ''/repo/financial_assistant/streamlit/cache''
   \<and> initialize_session ''/repo/financial_assistant'' ''/repo'' ''s2'' False None Map.empty ''CACHE_DIR''
     = Some ''/repo/financial_assistant/streamlit/cache''"
  by (simp add: initialize_session_def path_join_def Let_def)

text \<open>
  C7, amended. In production mode, with no explicit cache directory and none stored in
  the session yet, two sessions whose identifiers differ, have the same length (as two
  \<^verbatim>\<open>uuid4\<close> strings have) and contain no path separator get cache roots that are
  distinct, and neither root is a prefix of the other.
\<close>

theorem initialize_session_prod_roots_distinct:
  assumes "''CACHE_DIR'' \<notin> dom st1" "''CACHE_DIR'' \<notin> dom st2"
    and "initialize_session kit_dir cwd u1 True None st1 ''SESSION_ID'' = Some a"
    and "initialize_session kit_dir cwd u2 True None st2 ''SESSION_ID'' = Some b"
    and "a \<noteq> b" "length a = length b" "CHR ''/'' \<notin> set a \<union> set b"
  shows "\<exists>r1 r2. initialize_session kit_dir cwd u1 True None st1 ''CACHE_DIR'' = Some r1
            \<and> initialize_session kit_dir cwd u2 True None st2 ''CACHE_DIR'' = Some r2
            \<and> r1 \<noteq> r2 \<and> \<not> prefix r1 r2 \<and> \<not> prefix r2 r1"
proof -
  obtain Q where Q: "\<And>sid. CHR ''/'' \<notin> set sid \<Longrightarrow>
     abspath cwd (path_join (path_join kit_dir ''../../scratch/financial_assistant/cache'')
                    (''cache_'' @ sid)) = Q @ ''cache_'' @ sid"
    using prod_root_shape by blast
  have r1: "initialize_session kit_dir cwd u1 True None st1 ''CACHE_DIR'' = Some (Q @ ''cache_'' @ a)"
    using assms(1,3,7) Q [of a]
    by (auto simp: initialize_session_def Let_def split: if_splits)
  have r2: "initialize_session kit_dir cwd u2 True None st2 ''CACHE_DIR'' = Some (Q @ ''cache_'' @ b)"
    using assms(2,4,7) Q [of b]
    by (auto simp: initialize_session_def Let_def split: if_splits)
  have "\<not> prefix a b" "\<not> prefix b a"
    using assms(5,6) prefix_same_length by fastforce+
  then show ?thesis
    using r1 r2 assms(5) by simp
qed

theorem initialize_session_prod_roots_distinct_witness:
  "''CACHE_DIR'' \<notin> dom (Map.empty :: session_state)
   \<and> initialize_session ''/repo/financial_assistant'' ''/repo'' ''s1'' True None Map.empty ''SESSION_ID''
       = Some ''s1''
   \<and> initialize_session ''/repo/financial_assistant'' ''/repo'' ''s2'' True None Map.empty ''SESSION_ID''
       = Some ''s2''
   \<and> ''s1'' \<noteq> ''s2'' \<and> length ''s1'' = length ''s2'' \<and> CHR ''/'' \<notin> set ''s1'' \<union> set ''s2''
   \<and> (\<exists>r1 r2.
        initialize_session ''/repo/financial_assistant'' ''/repo'' ''s1'' True None Map.empty ''CACHE_DIR''
          = Some r1
        \<and> initialize_session ''/repo/financial_assistant'' ''/repo'' ''s2'' True None Map.empty ''CACHE_DIR''
          = Some r2
        \<and> r1 \<noteq> r2 \<and> \<not> prefix r1 r2 \<and> \<not> prefix r2 r1)"
proof -
  have h1: "''CACHE_DIR'' \<notin> dom (Map.empty :: session_state)" by simp
  have h3: "initialize_session ''/repo/financial_assistant'' ''/repo'' ''s1'' True None Map.empty
              ''SESSION_ID'' = Some ''s1''"
    by (simp add: initialize_session_def Let_def)
  have h4: "initialize_session ''/repo/financial_assistant'' ''/repo'' ''s2'' True None Map.empty
              ''SESSION_ID'' = Some ''s2''"
    by (simp add: initialize_session_def Let_def)
  have h5: "''s1'' \<noteq> ''s2''" by simp
  have h6: "length ''s1'' = length ''s2''" by simp
  have h7: "CHR ''/'' \<notin> set ''s1'' \<union> set ''s2''" by simp
  show ?thesis
    using initialize_session_prod_roots_distinct [OF h1 h1 h3 h4 h5 h6 h7] h1 h3 h4 h5 h6 h7
    by blast
qed

section \<open>Properties of browsing\<close>

lemma split_sep_append_sep:
  "split_sep c (a @ c # b) = split_sep c a @ split_sep c b"
proof (induction a)
  case Nil
  then show ?case by simp
next
  case (Cons x a)
  then show ?case
    using split_sep_nonempty [of c a] by (cases "split_sep c a") auto
qed

lemma path_names_append_sep: "path_names (a @ CHR ''/'' # b) = path_names a @ path_names b"
  by (simp add: path_names_def split_sep_append_sep)

lemma path_names_Nil: "path_names [] = []"
  by (simp add: path_names_def)

lemma path_names_join:
  assumes "\<not> prefix ''/'' n"
  shows "path_names (path_join p n) = path_names p @ path_names n"
proof (cases "p = []")
  case True
  then show ?thesis using assms by (simp add: path_join_def path_names_Nil)
next
  case False
  show ?thesis
  proof (cases "last p = CHR ''/''")
    case True
    with False obtain q where q: "p = q @ ''/''"
      by (metis append_butlast_last_id)
    have "path_names (q @ CHR ''/'' # n) = path_names q @ path_names n"
      by (rule path_names_append_sep)
    moreover have "path_names (q @ CHR ''/'' # []) = path_names q"
      by (simp add: path_names_append_sep path_names_Nil)
    ultimately show ?thesis using assms by (simp add: path_join_def q)
  next
    case l: False
    then show ?thesis using assms False by (simp add: path_join_def path_names_append_sep)
  qed
qed

lemma initial_slashes_join:
  assumes "\<not> prefix ''/'' n"
  shows "initial_slashes (path_join p n) = initial_slashes p"
proof -
  consider "p = []" | a where "p = [a]" | a b where "p = [a, b]" | "3 \<le> length p"
    by (cases p; cases "tl p"; cases "tl (tl p)") auto
  then show ?thesis
  proof cases
    case 1
    then show ?thesis using assms by (simp add: path_join_def initial_slashes_def)
  next
    case 2
    then show ?thesis using assms by (cases n) (auto simp: path_join_def initial_slashes_def)
  next
    case 3
    then show ?thesis using assms by (cases n) (auto simp: path_join_def initial_slashes_def)
  next
    case 4
    then show ?thesis using assms initial_slashes_append [of p]
      by (auto simp: path_join_def)
  qed
qed

lemma path_parts_join:
  "\<not> prefix ''/'' n \<Longrightarrow> path_parts (path_join p n) = path_parts p @ path_names n"
  by (simp add: path_parts_def path_root_def initial_slashes_join path_names_join)

lemma path_root_join: "\<not> prefix ''/'' n \<Longrightarrow> path_root (path_join p n) = path_root p"
  by (simp add: path_root_def initial_slashes_join)

lemma is_relative_to_join:
  "is_relative_to p d \<Longrightarrow> \<not> prefix ''/'' n \<Longrightarrow> is_relative_to (path_join p n) d"
  by (simp add: is_relative_to_def path_parts_join path_root_join)

lemma is_relative_to_refl: "is_relative_to d d"
  by (simp add: is_relative_to_def path_parts_def)

lemma no_sep_not_absolute: "CHR ''/'' \<notin> set n \<Longrightarrow> \<not> prefix ''/'' n"
  by (cases n) auto

lemma enumerate_names: "(i, x) \<in> set (enumerate k xs) \<Longrightarrow> x \<in> set xs"
  by (auto simp: in_set_enumerate_eq)

lemma display_contained:
  "plain_names env \<Longrightarrow> (C \<longrightarrow> is_relative_to current_path default_path) \<Longrightarrow>
     (\<forall>e \<in> set (fst (display_directory_contents n env path default_path current_path)).
        (case e of Listed p \<Rightarrow> is_relative_to p default_path
           | Download p \<Rightarrow> C \<longrightarrow> is_relative_to p default_path))
     \<and> (C \<longrightarrow> is_relative_to
          (fst (snd (display_directory_contents n env path default_path current_path)))
          default_path)"
  "plain_names env \<Longrightarrow> (C \<longrightarrow> is_relative_to current_path default_path) \<Longrightarrow>
   is_relative_to path default_path \<Longrightarrow> \<forall>(i, x) \<in> set subdirs. CHR ''/'' \<notin> set x \<Longrightarrow>
     (\<forall>e \<in> set (fst (display_subdirectories n env path default_path subdirs current_path)).
        (case e of Listed p \<Rightarrow> is_relative_to p default_path
           | Download p \<Rightarrow> C \<longrightarrow> is_relative_to p default_path))
     \<and> (C \<longrightarrow> is_relative_to
          (fst (snd (display_subdirectories n env path default_path subdirs current_path)))
          default_path)"
proof (induction n env path default_path current_path
         and n env path default_path subdirs current_path
       rule: display_directory_contents_display_subdirectories.induct)
  case (1 env path default_path current_path)
  then show ?case by simp
next
  case (2 n env path default_path current_path)
  let ?path' = "if is_relative_to path default_path then path else default_path"
  let ?cur' = "if is_relative_to path default_path then current_path else default_path"
  have p': "is_relative_to ?path' default_path"
    by (simp add: is_relative_to_refl)
  have c': "C \<longrightarrow> is_relative_to ?cur' default_path"
    using 2(3) by (simp add: is_relative_to_refl)
  show ?case
  proof (cases "list_directory env ?path'")
    case None
    then show ?thesis using p' c' by (simp add: Let_def)
  next
    case (Some a)
    obtain subdirectories files where a: "(subdirectories, files) = a" by (cases a) auto
    have names: "\<forall>n \<in> set subdirectories \<union> set files. CHR ''/'' \<notin> set n"
      using 2(2) Some a unfolding plain_names_def by blast
    then have subs: "\<forall>(i, x) \<in> set (enumerate 0 subdirectories). CHR ''/'' \<notin> set x"
      by (auto dest: enumerate_names)
    note IH = 2(1) [OF refl refl refl Some a 2(2) c' p' subs]
    obtain evs cur'' out where r:
      "display_subdirectories n env ?path' default_path (enumerate 0 subdirectories) ?cur'
         = (evs, cur'', out)"
      by (cases "display_subdirectories n env ?path' default_path (enumerate 0 subdirectories) ?cur'")
    have files: "\<forall>f \<in> set files. is_relative_to (path_join ?path' f) default_path"
      using names p' by (simp add: is_relative_to_join no_sep_not_absolute)
    have ev: "\<forall>e \<in> set evs. (case e of Listed p \<Rightarrow> is_relative_to p default_path
           | Download p \<Rightarrow> C \<longrightarrow> is_relative_to p default_path)"
      and cu: "C \<longrightarrow> is_relative_to cur'' default_path"
      using IH unfolding r by simp_all
    have eq: "display_directory_contents (Suc n) env path default_path current_path
        = (case out of
             Returned \<Rightarrow> (Listed ?path' # evs
                     @ (if files \<noteq> [] \<and> prefix ''cache'' (path_name ?path')
                        then map (\<lambda>file. Download (path_join ?path' file)) files else []),
                   cur'', Returned)
           | _ \<Rightarrow> (Listed ?path' # evs, cur'', out))"
      using Some a [symmetric] r by (cases out) (simp_all add: Let_def)
    show ?thesis
      unfolding eq using ev cu p' files by (cases out) auto
  qed
next
  case (3 n env path default_path current_path)
  then show ?case by simp
next
  case (4 n env path default_path idx subdir rest current_path)
  have sub: "CHR ''/'' \<notin> set subdir" and rest: "\<forall>(i, x) \<in> set rest. CHR ''/'' \<notin> set x"
    using 4(7) by auto
  show ?case
  proof (cases "button env subdir idx")
    case False
    then show ?thesis using 4(3) [OF False 4(4) 4(5) 4(6) rest] by simp
  next
    case True
    show ?thesis
    proof (cases "list_files_in_directory env (path_join path subdir)")
      case None
      then show ?thesis using True 4(5,6) sub
        by (simp add: is_relative_to_join no_sep_not_absolute)
    next
      case (Some files_subdir)
      have fnames: "\<forall>f \<in> set files_subdir. CHR ''/'' \<notin> set f"
        using 4(4) Some unfolding plain_names_def by blast
      have l: "is_relative_to (path_join path subdir) default_path"
        using 4(6) sub by (simp add: is_relative_to_join no_sep_not_absolute)
      have d: "\<forall>f \<in> set files_subdir.
                 C \<longrightarrow> is_relative_to (path_join (path_join current_path subdir) f) default_path"
        using 4(5) sub fnames by (simp add: is_relative_to_join no_sep_not_absolute)
      obtain evs cur' out where r:
        "display_directory_contents n env (path_join current_path subdir) default_path current_path
           = (evs, cur', out)"
        by (cases "display_directory_contents n env (path_join current_path subdir)
                     default_path current_path")
      have IH1: "(\<forall>e \<in> set evs. (case e of Listed p \<Rightarrow> is_relative_to p default_path
           | Download p \<Rightarrow> C \<longrightarrow> is_relative_to p default_path))
                 \<and> (C \<longrightarrow> is_relative_to cur' default_path)"
        using 4(1) [OF True Some refl 4(4) 4(5)] r by simp
      show ?thesis
      proof (cases "out = Returned")
        case False
        then show ?thesis using True Some r IH1 l d
          by (cases out) (auto simp: Let_def)
      next
        case R: True
        obtain evs' cur'' out' where r':
          "display_subdirectories n env path default_path rest cur' = (evs', cur'', out')"
          by (cases "display_subdirectories n env path default_path rest cur'")
        have c1: "C \<longrightarrow> is_relative_to cur' default_path" using IH1 by simp
        have r1: "(evs, cur', out) = display_directory_contents n env
                    (path_join current_path subdir) default_path current_path"
          using r by simp
        have IH2: "(\<forall>e \<in> set evs'. (case e of Listed p \<Rightarrow> is_relative_to p default_path
           | Download p \<Rightarrow> C \<longrightarrow> is_relative_to p default_path))
                   \<and> (C \<longrightarrow> is_relative_to cur'' default_path)"
          using 4(2) [OF True Some refl r1 refl R 4(4) c1 4(6) rest] unfolding r' by simp
        show ?thesis using True Some r R r' IH1 IH2 l d
          by (auto simp: Let_def)
      qed
    qed
  qed
qed

lemma display_replaces_outside_path:
  "\<not> is_relative_to path default_path \<Longrightarrow>
     display_directory_contents (Suc n) env path default_path current_path
       = display_directory_contents (Suc n) env default_path default_path default_path"
  by (simp add: is_relative_to_refl Let_def)

text \<open>
  C6 as stated fails: the containment check is \<^verbatim>\<open>pathlib\<close>'s \<^verbatim>\<open>is_relative_to\<close>, which
  compares path components and resolves nothing. The candidate \<^verbatim>\<open>/cache/../etc\<close> passes
  the check against the default path \<^verbatim>\<open>/cache\<close> and is listed, although it resolves to
  \<^verbatim>\<open>/etc\<close>, which is not under \<^verbatim>\<open>/cache\<close>.
\<close>

theorem display_directory_contents_dotdot_counterexample:
  "display_directory_contents 1
      \<lparr>list_directory = (\<lambda>p. if p = ''/cache/../etc'' then Some ([], [''hosts'']) else None),
        list_files_in_directory = (\<lambda>p. None), button = (\<lambda>s i. False)\<rparr>
      ''/cache/../etc'' ''/cache'' ''/cache''
     = ([Listed ''/cache/../etc''], ''/cache'', Returned)
   \<and> normpath ''/cache/../etc'' = ''/etc''
   \<and> \<not> is_relative_to ''/etc'' ''/cache''"
  by (simp add: is_relative_to_def path_parts_def path_root_def path_names_def
      initial_slashes_def path_name_def normpath_def norm_step_def Let_def)

text \<open>
  C6, amended. The guard is lexical. A candidate path that is not lexically relative to
  the default path (component-wise, no resolution of \<^verbatim>\<open>..\<close> or of links) is replaced by
  the default path, and \<^verbatim>\<open>current_path\<close> with it, before anything is listed. Every
  directory the function lists, at any depth of the recursion and also in a run that is cut
  short, is lexically relative to the default path. The files offered for download are so
  too, provided \<^verbatim>\<open>current_path\<close> is lexically relative to the default path at the call:
  the downloads below a clicked sub-directory are built from \<^verbatim>\<open>current_path\<close>, not from
  the checked path.
\<close>

theorem display_directory_contents_lexically_contained:
  assumes "plain_names env"
  shows "(\<not> is_relative_to path default_path \<longrightarrow>
            display_directory_contents (Suc n) env path default_path current_path
              = display_directory_contents (Suc n) env default_path default_path default_path)
     \<and> (\<forall>p. Listed p \<in> set (fst (display_directory_contents n env path default_path current_path))
            \<longrightarrow> is_relative_to p default_path)
     \<and> (is_relative_to current_path default_path \<longrightarrow>
          (\<forall>p. Download p \<in> set (fst (display_directory_contents n env path default_path current_path))
            \<longrightarrow> is_relative_to p default_path))"
proof (intro conjI impI allI)
  assume "\<not> is_relative_to path default_path"
  then show "display_directory_contents (Suc n) env path default_path current_path
              = display_directory_contents (Suc n) env default_path default_path default_path"
    by (rule display_replaces_outside_path)
next
  fix p
  assume "Listed p \<in> set (fst (display_directory_contents n env path default_path current_path))"
  then show "is_relative_to p default_path"
    using display_contained(1) [OF assms, of False current_path default_path n path]
    by fastforce
next
  fix p
  assume "is_relative_to current_path default_path"
    and "Download p \<in> set (fst (display_directory_contents n env path default_path current_path))"
  then show "is_relative_to p default_path"
    using display_contained(1) [OF assms, of True current_path default_path n path]
    by fastforce
qed

theorem display_directory_contents_lexically_contained_witness:
  "plain_names
     \<lparr>list_directory =
          (\<lambda>p. if p = ''/cache'' then Some ([''sources''], [''chat_history.txt''])
               else if p = ''/cache/sources'' then Some ([], [''doc1.txt''])
               else None),
        list_files_in_directory =
          (\<lambda>p. if p = ''/cache/sources'' then Some [''doc1.txt''] else None),
        button = (\<lambda>s i. s = ''sources'' \<and> i = 0)\<rparr>
   \<and> \<not> is_relative_to ''/etc'' ''/cache''
   \<and> display_directory_contents (Suc 2)
       \<lparr>list_directory =
          (\<lambda>p. if p = ''/cache'' then Some ([''sources''], [''chat_history.txt''])
               else if p = ''/cache/sources'' then Some ([], [''doc1.txt''])
               else None),
        list_files_in_directory =
          (\<lambda>p. if p = ''/cache/sources'' then Some [''doc1.txt''] else None),
        button = (\<lambda>s i. s = ''sources'' \<and> i = 0)\<rparr>
       ''/etc'' ''/cache'' ''/cache''
     = display_directory_contents (Suc 2)
       \<lparr>list_directory =
          (\<lambda>p. if p = ''/cache'' then Some ([''sources''], [''chat_history.txt''])
               else if p = ''/cache/sources'' then Some ([], [''doc1.txt''])
               else None),
        list_files_in_directory =
          (\<lambda>p. if p = ''/cache/sources'' then Some [''doc1.txt''] else None),
        button = (\<lambda>s i. s = ''sources'' \<and> i = 0)\<rparr>
       ''/cache'' ''/cache'' ''/cache''
   \<and> Listed ''/cache/sources'' \<in> set (fst (display_directory_contents 2
       \<lparr>list_directory =
          (\<lambda>p. if p = ''/cache'' then Some ([''sources''], [''chat_history.txt''])
               else if p = ''/cache/sources'' then Some ([], [''doc1.txt''])
               else None),
        list_files_in_directory =
          (\<lambda>p. if p = ''/cache/sources'' then Some [''doc1.txt''] else None),
        button = (\<lambda>s i. s = ''sources'' \<and> i = 0)\<rparr>
       ''/etc'' ''/cache'' ''/cache''))
   \<and> is_relative_to ''/cache/sources'' ''/cache''
   \<and> is_relative_to ''/cache'' ''/cache''
   \<and> Download ''/cache/sources/doc1.txt'' \<in> set (fst (display_directory_contents 2
       \<lparr>list_directory =
          (\<lambda>p. if p = ''/cache'' then Some ([''sources''], [''chat_history.txt''])
               else if p = ''/cache/sources'' then Some ([], [''doc1.txt''])
               else None),
        list_files_in_directory =
          (\<lambda>p. if p = ''/cache/sources'' then Some [''doc1.txt''] else None),
        button = (\<lambda>s i. s = ''sources'' \<and> i = 0)\<rparr>
       ''/etc'' ''/cache'' ''/cache''))
   \<and> is_relative_to ''/cache/sources/doc1.txt'' ''/cache''"
proof -
  let ?env = "\<lparr>list_directory =
          (\<lambda>p. if p = ''/cache'' then Some ([''sources''], [''chat_history.txt''])
               else if p = ''/cache/sources'' then Some ([], [''doc1.txt''])
               else None),
        list_files_in_directory =
          (\<lambda>p. if p = ''/cache/sources'' then Some [''doc1.txt''] else None),
        button = (\<lambda>s i. s = ''sources'' \<and> i = 0)\<rparr>"
  have names: "plain_names ?env"
    by (auto simp: plain_names_def split: if_splits)
  have outside: "\<not> is_relative_to ''/etc'' ''/cache''"
    by (simp add: is_relative_to_def path_parts_def path_root_def path_names_def
        initial_slashes_def)
  have run: "display_directory_contents 2 ?env ''/etc'' ''/cache'' ''/cache''
      = ([Listed ''/cache'', Listed ''/cache/sources'', Download ''/cache/sources/doc1.txt'',
          Listed ''/cache/sources'', Download ''/cache/chat_history.txt''],
         ''/cache'', Returned)"
    by (simp add: numeral_2_eq_2 is_relative_to_def path_parts_def path_root_def
        path_names_def initial_slashes_def path_name_def path_join_def Let_def)
  have listed: "Listed ''/cache/sources''
      \<in> set (fst (display_directory_contents 2 ?env ''/etc'' ''/cache'' ''/cache''))"
    and download: "Download ''/cache/sources/doc1.txt''
      \<in> set (fst (display_directory_contents 2 ?env ''/etc'' ''/cache'' ''/cache''))"
    unfolding run by simp_all
  have cur: "is_relative_to ''/cache'' ''/cache''"
    by (rule is_relative_to_refl)
  show ?thesis
    using display_directory_contents_lexically_contained
            [OF names, of "''/etc''" "''/cache''" 2 "''/cache''"]
          names outside listed download cur
    by blast
qed

section \<open>Properties of clearing and deleting\<close>

subsection \<open>Lookup, update and the resolution of paths\<close>
















subsection \<open>What clearing does to a directory\<close>










subsection \<open>The cache root\<close>









text \<open>
  C3: the code removes an excluded directory together with a parent that is not excluded.
  With the tree \<^verbatim>\<open>/r/a/b\<close> and \<^verbatim>\<open>exclude = ['/r/a/b']\<close> the walk of \<^verbatim>\<open>/r\<close> hands
  \<^verbatim>\<open>/r/a\<close> to \<^verbatim>\<open>shutil.rmtree\<close>, and the excluded \<^verbatim>\<open>/r/a/b\<close> is gone with it.
\<close>

theorem delete_all_subdirectories_removes_nested_excluded:
  "fs_exists
     \<lparr>fs = Dir False [(''r'', Dir False [(''a'', Dir False [(''b'', Dir False [])])])],
      working_dir = [], log = []\<rparr> ''/r/a/b''
   \<and> delete_all_subdirectories ''/r'' [''/r/a/b''] False
       \<lparr>fs = Dir False [(''r'', Dir False [(''a'', Dir False [(''b'', Dir False [])])])],
        working_dir = [], log = []\<rparr>
     = \<lparr>fs = Dir False [(''r'', Dir False [])], working_dir = [], log = []\<rparr>
   \<and> \<not> fs_exists \<lparr>fs = Dir False [(''r'', Dir False [])], working_dir = [], log = []\<rparr> ''/r/a/b''"
  by (simp add: delete_all_subdirectories_def fs_exists_def resolve_path_def path_join_def)









section \<open>Properties of scheduled deletion\<close>

lemma run_job_tags: "map tags (jobs (fst (run_job j sys))) = map tags (jobs sys)"
  by (simp add: run_job_def job_func_def comp_def split: option.splits)

lemma run_jobs_tags: "map tags (jobs (fst (run_jobs js sys))) = map tags (jobs sys)"
proof (induction js arbitrary: sys)
  case Nil
  then show ?case by simp
next
  case (Cons j js)
  obtain sys' ok where r: "run_job j sys = (sys', ok)"
    by (cases "run_job j sys")
  have t: "map tags (jobs sys') = map tags (jobs sys)"
    using run_job_tags [of j sys] r by simp
  show ?case
  proof (cases ok)
    case True
    then show ?thesis using Cons [of sys'] r t by simp
  next
    case False
    then show ?thesis using r t by simp
  qed
qed

lemma run_pending_tags: "map tags (jobs (fst (run_pending sys))) = map tags (jobs sys)"
  by (simp add: run_pending_def run_jobs_tags)

lemma get_jobs_tags:
  "map tags (get_jobs tag sys) = filter (\<lambda>ts. tag \<in> set ts) (map tags (jobs sys))"
  by (simp add: get_jobs_def filter_map comp_def)

lemma get_jobs_length_cong:
  assumes "map tags (jobs sys') = map tags (jobs sys)"
  shows "length (get_jobs tag sys') = length (get_jobs tag sys)"
proof -
  have "map tags (get_jobs tag sys') = map tags (get_jobs tag sys)"
    unfolding get_jobs_tags using assms by simp
  then show ?thesis by (rule map_eq_imp_length_eq)
qed

lemma run_scheduler_tags:
  "map tags (jobs (fst (run_scheduler n tag sys))) = map tags (jobs sys)"
proof (induction n arbitrary: sys)
  case 0
  then show ?case by simp
next
  case (Suc n)
  obtain sys' ok where r: "run_pending sys = (sys', ok)"
    by (cases "run_pending sys")
  have t: "map tags (jobs sys') = map tags (jobs sys)"
    using run_pending_tags [of sys] r by simp
  have s: "map tags (jobs (sleep 1 sys')) = map tags (jobs sys)"
    using t by (simp add: sleep_def)
  show ?case
  proof (cases ok)
    case True
    then show ?thesis using Suc [of "sleep 1 sys'"] r s by simp
  next
    case False
    then show ?thesis using r t by simp
  qed
qed

lemma run_scheduler_never_exits:
  "get_jobs tag sys \<noteq> [] \<Longrightarrow> snd (run_scheduler n tag sys) \<noteq> Left_loop"
proof (induction n arbitrary: sys)
  case 0
  then show ?case by simp
next
  case (Suc n)
  obtain sys' ok where r: "run_pending sys = (sys', ok)"
    by (cases "run_pending sys")
  have t: "map tags (jobs (sleep 1 sys')) = map tags (jobs sys)"
    using run_pending_tags [of sys] r by (simp add: sleep_def)
  have "length (get_jobs tag (sleep 1 sys')) = length (get_jobs tag sys)"
    using t by (rule get_jobs_length_cong)
  then have g: "get_jobs tag (sleep 1 sys') \<noteq> []"
    using Suc.prems by auto
  show ?case
  proof (cases ok)
    case True
    then show ?thesis using Suc.IH [OF g] Suc.prems r by simp
  next
    case False
    then show ?thesis using Suc.prems r by simp
  qed
qed

lemma schedule_Registered:
  assumes "schedule_temp_dir_deletion temp_dir delay_minutes sys = Registered sys'"
  shows "sys' = sys\<lparr>jobs := jobs sys
                    @ [\<lparr>job_id = next_job_id sys, interval = delay_minutes,
                        next_run = clock sys + 60 * delay_minutes,
                        tags = [temp_dir], temp_dir_arg = temp_dir\<rparr>],
                 next_job_id := Suc (next_job_id sys)\<rparr>"
  using assms
  by (auto simp: schedule_temp_dir_deletion_def schedule_next_run_def split: if_splits)

lemma get_jobs_schedule:
  assumes "schedule_temp_dir_deletion temp_dir delay_minutes sys = Registered sys'"
  shows "get_jobs temp_dir sys'
     = get_jobs temp_dir sys
       @ [\<lparr>job_id = next_job_id sys, interval = delay_minutes,
           next_run = clock sys + 60 * delay_minutes, tags = [temp_dir],
           temp_dir_arg = temp_dir\<rparr>]"
  unfolding schedule_Registered [OF assms] by (simp add: get_jobs_def)

text \<open>
  C1: the job does not fire at most once, and the polling thread does not end. The job
  function returns \<^verbatim>\<open>None\<close>, so the scheduler never removes the job: with every delay
  of at least one minute whose first run is within the range of time, the call registers
  the job and, however long the thread has run, \<^verbatim>\<open>get_jobs(temp_dir)\<close> is not empty
  and the thread has not left its loop. With a delay of one minute the directory
  \<^verbatim>\<open>/tmp/x\<close> is deleted at second 60, the job runs again at second 120, and after 121
  iterations it is still registered, due again at second 180.
\<close>

theorem schedule_temp_dir_deletion_fires_again:
  "(1 \<le> delay_minutes \<and> clock sys + 60 * delay_minutes \<le> time_limit sys \<longrightarrow>
      (\<exists>sys'. schedule_temp_dir_deletion temp_dir delay_minutes sys = Registered sys'
         \<and> (\<forall>n. snd (run_scheduler n temp_dir sys') \<noteq> Left_loop
                \<and> get_jobs temp_dir (fst (run_scheduler n temp_dir sys')) \<noteq> [])))
   \<and> schedule_temp_dir_deletion ''/tmp/x'' 1
        \<lparr>world_of = \<lparr>fs = Dir False [(''tmp'', Dir False [(''x'', Dir False [(''f'', File False)])])],
                      working_dir = [], log = []\<rparr>,
         jobs = [], next_job_id = 0, clock = 0, time_limit = 253402300799, fired = []\<rparr>
     = Registered
        \<lparr>world_of = \<lparr>fs = Dir False [(''tmp'', Dir False [(''x'', Dir False [(''f'', File False)])])],
                      working_dir = [], log = []\<rparr>,
         jobs = [\<lparr>job_id = 0, interval = 1, next_run = 60, tags = [''/tmp/x''],
                  temp_dir_arg = ''/tmp/x''\<rparr>],
         next_job_id = 1, clock = 0, time_limit = 253402300799, fired = []\<rparr>
   \<and> run_scheduler 121 ''/tmp/x''
        \<lparr>world_of = \<lparr>fs = Dir False [(''tmp'', Dir False [(''x'', Dir False [(''f'', File False)])])],
                      working_dir = [], log = []\<rparr>,
         jobs = [\<lparr>job_id = 0, interval = 1, next_run = 60, tags = [''/tmp/x''],
                  temp_dir_arg = ''/tmp/x''\<rparr>],
         next_job_id = 1, clock = 0, time_limit = 253402300799, fired = []\<rparr>
     = (\<lparr>world_of = \<lparr>fs = Dir False [(''tmp'', Dir False [])], working_dir = [], log = []\<rparr>,
         jobs = [\<lparr>job_id = 0, interval = 1, next_run = 180, tags = [''/tmp/x''],
                  temp_dir_arg = ''/tmp/x''\<rparr>],
         next_job_id = 1, clock = 121, time_limit = 253402300799,
         fired = [(60, ''/tmp/x''), (120, ''/tmp/x'')]\<rparr>, Polling)"
proof (intro conjI impI)
  assume v: "1 \<le> delay_minutes \<and> clock sys + 60 * delay_minutes \<le> time_limit sys"
  then obtain sys' where a: "schedule_temp_dir_deletion temp_dir delay_minutes sys = Registered sys'"
    by (simp add: schedule_temp_dir_deletion_def schedule_next_run_def)
  have g: "get_jobs temp_dir sys' \<noteq> []"
    using get_jobs_schedule [OF a] by simp
  have "snd (run_scheduler n temp_dir sys') \<noteq> Left_loop
          \<and> get_jobs temp_dir (fst (run_scheduler n temp_dir sys')) \<noteq> []" for n
  proof
    show "snd (run_scheduler n temp_dir sys') \<noteq> Left_loop"
      using g by (rule run_scheduler_never_exits)
    have "length (get_jobs temp_dir (fst (run_scheduler n temp_dir sys')))
            = length (get_jobs temp_dir sys')"
      using run_scheduler_tags by (rule get_jobs_length_cong)
    then show "get_jobs temp_dir (fst (run_scheduler n temp_dir sys')) \<noteq> []"
      using g by auto
  qed
  then show "\<exists>sys'. schedule_temp_dir_deletion temp_dir delay_minutes sys = Registered sys'
         \<and> (\<forall>n. snd (run_scheduler n temp_dir sys') \<noteq> Left_loop
                \<and> get_jobs temp_dir (fst (run_scheduler n temp_dir sys')) \<noteq> [])"
    using a by blast
next
  show "schedule_temp_dir_deletion ''/tmp/x'' 1
        \<lparr>world_of = \<lparr>fs = Dir False [(''tmp'', Dir False [(''x'', Dir False [(''f'', File False)])])],
                      working_dir = [], log = []\<rparr>,
         jobs = [], next_job_id = 0, clock = 0, time_limit = 253402300799, fired = []\<rparr>
     = Registered
        \<lparr>world_of = \<lparr>fs = Dir False [(''tmp'', Dir False [(''x'', Dir False [(''f'', File False)])])],
                      working_dir = [], log = []\<rparr>,
         jobs = [\<lparr>job_id = 0, interval = 1, next_run = 60, tags = [''/tmp/x''],
                  temp_dir_arg = ''/tmp/x''\<rparr>],
         next_job_id = 1, clock = 0, time_limit = 253402300799, fired = []\<rparr>"
    by (simp add: schedule_temp_dir_deletion_def schedule_next_run_def)
next
  show "run_scheduler 121 ''/tmp/x''
        \<lparr>world_of = \<lparr>fs = Dir False [(''tmp'', Dir False [(''x'', Dir False [(''f'', File False)])])],
                      working_dir = [], log = []\<rparr>,
         jobs = [\<lparr>job_id = 0, interval = 1, next_run = 60, tags = [''/tmp/x''],
                  temp_dir_arg = ''/tmp/x''\<rparr>],
         next_job_id = 1, clock = 0, time_limit = 253402300799, fired = []\<rparr>
     = (\<lparr>world_of = \<lparr>fs = Dir False [(''tmp'', Dir False [])], working_dir = [], log = []\<rparr>,
         jobs = [\<lparr>job_id = 0, interval = 1, next_run = 180, tags = [''/tmp/x''],
                  temp_dir_arg = ''/tmp/x''\<rparr>],
         next_job_id = 1, clock = 121, time_limit = 253402300799,
         fired = [(60, ''/tmp/x''), (120, ''/tmp/x'')]\<rparr>, Polling)"
    by code_simp
qed

theorem schedule_temp_dir_deletion_fires_again_witness:
  "1 \<le> (1::int)
   \<and> clock \<lparr>world_of = \<lparr>fs = Dir False [(''tmp'', Dir False [(''x'', Dir False [])])],
                         working_dir = [], log = []\<rparr>,
             jobs = [], next_job_id = 0, clock = 0, time_limit = 253402300799, fired = []\<rparr>
         + 60 * 1
       \<le> time_limit \<lparr>world_of = \<lparr>fs = Dir False [(''tmp'', Dir False [(''x'', Dir False [])])],
                         working_dir = [], log = []\<rparr>,
             jobs = [], next_job_id = 0, clock = 0, time_limit = 253402300799, fired = []\<rparr>
   \<and> (\<exists>sys'. schedule_temp_dir_deletion ''/tmp/x'' 1
          \<lparr>world_of = \<lparr>fs = Dir False [(''tmp'', Dir False [(''x'', Dir False [])])],
                        working_dir = [], log = []\<rparr>,
           jobs = [], next_job_id = 0, clock = 0, time_limit = 253402300799, fired = []\<rparr>
         = Registered sys'
       \<and> snd (run_scheduler 86400 ''/tmp/x'' sys') \<noteq> Left_loop
       \<and> get_jobs ''/tmp/x'' (fst (run_scheduler 86400 ''/tmp/x'' sys')) \<noteq> [])"
proof -
  let ?s = "\<lparr>world_of = \<lparr>fs = Dir False [(''tmp'', Dir False [(''x'', Dir False [])])],
                         working_dir = [], log = []\<rparr>,
             jobs = [], next_job_id = 0, clock = 0, time_limit = 253402300799, fired = []\<rparr>"
  have v: "1 \<le> (1::int) \<and> clock ?s + 60 * 1 \<le> time_limit ?s" by simp
  show ?thesis
    using schedule_temp_dir_deletion_fires_again [of 1 ?s "''/tmp/x''"] v by blast
qed




section \<open>Properties of the output-saving helper\<close>

lemma check_inputs_set: "check_inputs (PSet xs) save_path user_request = Some TypeError"
  by (simp add: check_inputs_def)

lemma check_inputs_not_set: "check_inputs response save_path user_request = None \<Longrightarrow> \<not> is_set response"
  by (cases response) (simp_all add: check_inputs_def)

lemma set_to_list_id: "\<not> is_set response \<Longrightarrow> set_to_list response = response"
  by (cases response) simp_all

text \<open>
  C10. A set response is rejected by the first input check with \<^verbatim>\<open>TypeError\<close>,
  whatever the other arguments are, and the file is not touched. So the conversion of a
  set to a list further down is never reached with a set: whenever the checks pass, the
  response is not a set and the conversion leaves it as it is.
\<close>

theorem save_output_callback_set_TypeError:
  "save_output_callback E (PSet xs) save_path user_request file = (file, Some TypeError)
   \<and> (check_inputs response save_path' user_request' = None
        \<longrightarrow> \<not> is_set response \<and> set_to_list response = response)"
  by (simp add: save_output_callback_def check_inputs_set check_inputs_not_set set_to_list_id)

theorem save_output_callback_set_TypeError_witness:
  "save_output_callback \<lparr>str_int = (\<lambda>n. ''''), str_round2 = (\<lambda>x::unit. ''''),
       py_str = (\<lambda>v. ''''), to_json = (\<lambda>p::unit. ''''), pandas_add = (\<lambda>p s. Inl TypeError)\<rparr>
     (PSet [PStr ''a'']) (PStr ''out.txt'') PNone ''old'' = (''old'', Some TypeError)
   \<and> check_inputs (PList [PStr ''a''] :: (unit, unit) pyval) (PStr ''out.txt'') PNone = None
   \<and> \<not> is_set (PList [PStr ''a''] :: (unit, unit) pyval)
   \<and> set_to_list (PList [PStr ''a''] :: (unit, unit) pyval) = PList [PStr ''a'']"
  using save_output_callback_set_TypeError
    [of "\<lparr>str_int = (\<lambda>n. ''''), str_round2 = (\<lambda>x::unit. ''''),
       py_str = (\<lambda>v. ''''), to_json = (\<lambda>p::unit. ''''), pandas_add = (\<lambda>p s. Inl TypeError)\<rparr>"
        "[PStr ''a'']" "PStr ''out.txt''" PNone "''old''"
        "PList [PStr ''a'']" "PStr ''out.txt''" PNone]
  by (simp add: check_inputs_def)

text \<open>
  A run on the one-element tuple \<^verbatim>\<open>('a',)\<close>, with no user request and an empty file:
  the file holds the opening blank line only, and \<^verbatim>\<open>TypeError\<close> is raised.
\<close>

lemma save_output_callback_one_tuple:
  "save_output_callback \<lparr>str_int = (\<lambda>n. []), str_round2 = (\<lambda>x::unit. []),
       py_str = (\<lambda>v. []), to_json = (\<lambda>p::unit. []), pandas_add = (\<lambda>p s. Inl TypeError)\<rparr>
     (PTuple [PStr ''a'']) (PStr ''out.txt'') PNone [] = (''\<newline>\<newline>'', Some TypeError)"
  by (simp add: save_output_callback_def check_inputs_def)

text \<open>
  C8: on a tuple the code does not do what its own comment announces (\<^emph>\<open>split it up and
  write each element individually\<close>) and what the list branch beside it does. The body of
  the tuple loop passes \<^verbatim>\<open>response + '\n'\<close>, the whole tuple plus a string, where the
  list branch passes \<^verbatim>\<open>elem + '\n'\<close>, and that addition raises \<^verbatim>\<open>TypeError\<close> in the
  first iteration. So for every tuple response with at least one element (and a valid
  path and request) the helper writes no element and no tuple: it appends the opening
  blank line, then the user request if there is one, and raises. The closing blank line
  is not written.
\<close>

theorem save_output_callback_tuple_raises:
  "save_output_callback E (PTuple (x # xs)) (PStr path) PNone file
     = (file @ ''\<newline>\<newline>'', Some TypeError)
   \<and> save_output_callback E (PTuple (x # xs)) (PStr path) (PStr request) file
     = (file @ ''\<newline>\<newline>'' @ request @ ''\<newline>\<newline>'', Some TypeError)"
  by (simp add: save_output_callback_def check_inputs_def)

end
